theory Spec2Isabelle
  imports Main "HOL-Library.AList" "HOL-Library.Word"
begin

section \<open>Machine integers\<close>

text \<open>
  Go's \<open>int\<close> (on a 64-bit platform), \<open>int64\<close> and \<open>time.Duration\<close> are 64-bit
  two's complement integers. They are modelled as \<open>int\<close>, and every arithmetic
  operation of the source that can leave the range is followed by \<open>wrap64\<close>.
\<close>

definition wrap64 :: "int \<Rightarrow> int" where
  "wrap64 x = (x + 2 ^ 63) mod 2 ^ 64 - 2 ^ 63"

section \<open>base.go: errors and their classification\<close>

text \<open>
  \<open>type b2err struct { msg string; method string; retry int; code int }\<close>.
  The field \<open>method\<close> is called \<open>method_name\<close> here.
\<close>

record b2err =
  msg :: string
  method_name :: string
  retry :: int
  code :: int

text \<open>
  A Go \<open>error\<close> is an interface value. \<open>Action\<close> and \<open>Backoff\<close> only ask whether its
  dynamic type is \<open>b2err\<close>; every other error (transport errors, the context's
  cancellation error, \<open>io.EOF\<close>, decoding errors) fails the type assertion.
\<close>

datatype error =
    B2Error b2err
  | Canceled
  | EOF
  | ErrShortWrite
  | OtherError string

datatype ErrAction = ReAuthenticate | AttemptNewUpload | Retry | Punt

fun Action :: "error \<Rightarrow> ErrAction" where
  "Action (B2Error e) =
     (if retry e > 0 then Retry
      else if code e \<ge> 500 \<and> code e < 600
              \<and> (method_name e = ''b2_upload_file'' \<or> method_name e = ''b2_upload_part'')
           then AttemptNewUpload
      else if code e = 401
           then (if method_name e = ''b2_authorize_account'' then Punt else ReAuthenticate)
      else if code e = 429 \<or> code e = 500 \<or> code e = 503 then Retry
      else Punt)"
| "Action _ = Punt"

text \<open>\<open>time.Second\<close>, in nanoseconds, the unit of \<open>time.Duration\<close>.\<close>

definition Second :: int where
  "Second = 1000000000"

fun Backoff :: "error \<Rightarrow> int" where
  "Backoff (B2Error e) = wrap64 (retry e * Second)"
| "Backoff _ = 0"

section \<open>base.go: the large-file upload session\<close>

text \<open>
  \<open>type LargeFile struct { id string; b2 *B2; mu sync.Mutex; size int64;
  hashes map[int]string }\<close>. The map is an association list with distinct keys;
  the order of the list stands for the order in which \<open>range\<close> visits the map, which Go
  leaves unspecified. The fields \<open>id\<close> and \<open>size\<close> are called \<open>id_l\<close> and \<open>size_l\<close>.
\<close>

record LargeFile =
  id_l :: string
  authToken :: string
  apiURI :: string
  size_l :: int
  hashes :: "(int \<times> string) list"

record b2FinishLargeFileRequest =
  ID :: string
  Hashes :: "string list"

record b2FinishLargeFileResponse =
  Name :: string
  FileID :: string

record File =
  File_Name :: string
  File_Size :: int
  File_id :: string

text \<open>
  What a call does besides returning: the operations on the session mutex, the writes
  to the session's fields, and the requests handed to \<open>makeRequest\<close>.
\<close>

datatype effect =
    MuLock
  | MuUnlock
  | WriteHash int string
  | AddSize int
  | SubmitPart int string int
  | SubmitFinish b2FinishLargeFileRequest

text \<open>
  A call returns a value, returns an error, or panics (Go's runtime panic on an index
  out of range).
\<close>

datatype 'a outcome = Ok 'a | Err error | Panic string

text \<open>
  \<open>UploadPart\<close>; \<open>net\<close> stands for \<open>makeRequest\<close> and the remote service: \<open>None\<close> is
  success (\<open>nil\<close>), \<open>Some e\<close> the error it returned. The result is Go's pair
  \<open>(int, error)\<close>, the session afterwards, and the effects in program order.
\<close>

definition UploadPart ::
  "(int \<Rightarrow> string \<Rightarrow> int \<Rightarrow> error option) \<Rightarrow> LargeFile \<Rightarrow> string \<Rightarrow> int \<Rightarrow> int
     \<Rightarrow> (int \<times> error option) \<times> LargeFile \<times> effect list" where
  "UploadPart net l sha1 sz index =
     (case net index sha1 sz of
        Some e \<Rightarrow> ((0, Some e), l, [SubmitPart index sha1 sz])
      | None \<Rightarrow>
          ((sz, None),
           l\<lparr>hashes := AList.update index sha1 (hashes l),
             size_l := wrap64 (size_l l + sz)\<rparr>,
           [SubmitPart index sha1 sz, MuLock, WriteHash index sha1, AddSize sz, MuUnlock]))"

text \<open>
  The loop \<open>for k, v := range l.hashes { b2req.Hashes[k-1] = v }\<close> over the entries in
  the order visited; \<open>None\<close> is the runtime panic of an index outside the slice.
\<close>

fun range_hashes :: "(int \<times> string) list \<Rightarrow> string list \<Rightarrow> string list option" where
  "range_hashes [] arr = Some arr"
| "range_hashes ((k, v) # kvs) arr =
     (if 0 \<le> k - 1 \<and> k - 1 < int (length arr)
      then range_hashes kvs (arr[nat (k - 1) := v])
      else None)"

text \<open>
  \<open>FinishLargeFile\<close>: the mutex is taken first and released by the deferred unlock on
  every way out, a panic included. \<open>net\<close> stands for \<open>makeRequest\<close> of
  \<open>b2_finish_large_file\<close>.
\<close>

definition FinishLargeFile ::
  "(b2FinishLargeFileRequest \<Rightarrow> error + b2FinishLargeFileResponse) \<Rightarrow> LargeFile
     \<Rightarrow> File outcome \<times> effect list" where
  "FinishLargeFile net l =
     (case range_hashes (hashes l) (replicate (length (hashes l)) '''') of
        None \<Rightarrow> (Panic ''index out of range'', [MuLock, MuUnlock])
      | Some hs \<Rightarrow>
          (let b2req = \<lparr>ID = id_l l, Hashes = hs\<rparr> in
           case net b2req of
             Inl e \<Rightarrow> (Err e, [MuLock, SubmitFinish b2req, MuUnlock])
           | Inr b2resp \<Rightarrow>
               (Ok \<lparr>File_Name = Name b2resp, File_Size = size_l l, File_id = FileID b2resp\<rparr>,
                [MuLock, SubmitFinish b2req, MuUnlock])))"

text \<open>Whether a call ended by returning an error value.\<close>

fun is_Err :: "'a outcome \<Rightarrow> bool" where
  "is_Err (Err e) = True"
| "is_Err _ = False"

text \<open>Whether a trace of effects hands a manifest to the network.\<close>

fun submits :: "effect list \<Rightarrow> bool" where
  "submits [] = False"
| "submits (SubmitFinish r # es) = True"
| "submits (e # es) = submits es"

text \<open>
  Whether every write to the session's fields in a trace happens while the mutex is
  held; the flag says whether it is held at the start.
\<close>

fun guarded :: "bool \<Rightarrow> effect list \<Rightarrow> bool" where
  "guarded held [] = True"
| "guarded held (MuLock # es) = guarded True es"
| "guarded held (MuUnlock # es) = guarded False es"
| "guarded held (WriteHash k v # es) = (held \<and> guarded held es)"
| "guarded held (AddSize n # es) = (held \<and> guarded held es)"
| "guarded held (e # es) = guarded held es"

text \<open>Whether a trace of effects writes to the session's fields at all.\<close>

fun mutates :: "effect list \<Rightarrow> bool" where
  "mutates [] = False"
| "mutates (WriteHash k v # es) = True"
| "mutates (AddSize n # es) = True"
| "mutates (e # es) = mutates es"

section \<open>The chunked download reader\<close>

subsection \<open>The range a worker requests\<close>

text \<open>
  The arithmetic of \<open>thread\<close> after it has claimed \<open>chunkID\<close>:
  \<open>offset := int64(chunkID * r.csize); size := int64(r.csize);
  if offset >= r.size { return }; if offset+size > r.size { size = r.size - offset }\<close>.
  \<open>None\<close> is the return (the worker exits without a request), \<open>Some (offset, size)\<close>
  the arguments of \<open>DownloadFileByName\<close>.
\<close>

definition thread_range :: "int \<Rightarrow> int \<Rightarrow> int \<Rightarrow> (int \<times> int) option" where
  "thread_range chunkID cs tsize =
     (let offset = wrap64 (chunkID * cs); sz = cs in
      if offset \<ge> tsize then None
      else if wrap64 (offset + sz) > tsize then Some (offset, wrap64 (tsize - offset))
      else Some (offset, sz))"

subsection \<open>Buffers\<close>

type_synonym byte = "8 word"

text \<open>
  A \<open>bytes.Buffer\<close> is the list of its unread bytes. \<open>Read\<close> with a slice of length \<open>n\<close>
  returns \<open>io.EOF\<close> (and no bytes) on an empty buffer, unless \<open>n\<close> is 0; otherwise it
  hands out up to \<open>n\<close> bytes. The result is the bytes read, the error, and the buffer
  afterwards. \<open>Write\<close> appends, \<open>Reset\<close> empties.
\<close>

definition Buffer_Read :: "byte list \<Rightarrow> nat \<Rightarrow> byte list \<times> error option \<times> byte list" where
  "Buffer_Read b n =
     (if b = [] then (if n = 0 then ([], None, []) else ([], Some EOF, []))
      else (take n b, None, drop n b))"

subsection \<open>The state of a reader\<close>

text \<open>
  Buffers are heap objects, shared by pointer between the channel, the workers and the
  map of chunks; an address is the number of its allocation.
\<close>

type_synonym addr = nat

text \<open>
  Where a goroutine started by \<open>thread\<close> stands in its loop: at the \<open>select\<close> on
  \<open>r.chbuf\<close> and \<open>r.ctx.Done()\<close>; holding a buffer, before it claims \<open>r.chwid\<close>; with a
  claimed chunk, its offset and size, before the request; with the bytes copied into
  its buffer, before it stores the buffer in \<open>r.chunks\<close>; or returned.
\<close>

datatype wstate =
    Taking
  | Claiming addr
  | Fetching addr nat int int
  | Storing addr nat
  | Exited

text \<open>
  \<open>type Reader struct\<close>. The fields \<open>size\<close>, \<open>read\<close>, \<open>init\<close> are called \<open>size_r\<close>,
  \<open>read_r\<close>, \<open>init_done\<close> (whether the \<open>sync.Once\<close> has fired). \<open>ctx_done\<close> says whether
  \<open>ctx\<close> is cancelled; \<open>object\<close> is what \<open>bucket\<close> holds under \<open>name\<close>. The channel
  \<open>chbuf\<close> is its queue with its capacity and whether it is closed. \<open>buffers\<close> and
  \<open>nbufs\<close> are the heap of \<open>bytes.Buffer\<close> objects and how many were allocated;
  \<open>threads\<close> are the goroutines spawned by \<open>thread\<close>. The counters \<open>read\<close>, \<open>chwid\<close>
  and \<open>chrid\<close> start at 0 and only grow, one step or one read at a time. The mutexes and
  the condition variable have no field: a step of the model is one critical section.
\<close>

record Reader =
  ConcurrentDownloads :: int
  ChunkSize :: int
  ctx_done :: bool
  object :: "byte list"
  size_r :: int
  csize :: int
  read_r :: nat
  chwid :: nat
  chrid :: nat
  chbuf :: "addr list"
  chbuf_cap :: nat
  chbuf_closed :: bool
  init_done :: bool
  chunks :: "nat \<rightharpoonup> addr"
  err :: "error option"
  buffers :: "addr \<Rightarrow> byte list"
  nbufs :: nat
  threads :: "wstate list"

text \<open>
  A reader as its constructor leaves it: the zero value of the struct, with the
  object, its size, a live context, an empty map and the two settings.
\<close>

definition new_Reader :: "byte list \<Rightarrow> int \<Rightarrow> int \<Rightarrow> Reader" where
  "new_Reader obj cr cs =
     \<lparr>ConcurrentDownloads = cr, ChunkSize = cs, ctx_done = False, object = obj,
      size_r = int (length obj), csize = 0, read_r = 0, chwid = 0, chrid = 0,
      chbuf = [], chbuf_cap = 0, chbuf_closed = False, init_done = False,
      chunks = Map.empty, err = None, buffers = (\<lambda>a. []), nbufs = 0, threads = []\<rparr>"

subsection \<open>Close, setErr\<close>

definition Close :: "Reader \<Rightarrow> Reader" where
  "Close r = r\<lparr>ctx_done := True\<rparr>"

definition setErr :: "error \<Rightarrow> Reader \<Rightarrow> Reader" where
  "setErr e r = (if err r = None then r\<lparr>err := Some e\<rparr> else r)"

subsection \<open>The steps of a worker\<close>

text \<open>
  What \<open>DownloadFileByName\<close> delivers for a range of the object when the request
  succeeds.
\<close>

definition DownloadFileByName :: "byte list \<Rightarrow> int \<Rightarrow> int \<Rightarrow> byte list" where
  "DownloadFileByName obj offset sz = take (nat sz) (drop (nat offset) obj)"

text \<open>
  The \<open>select\<close>, case \<open>b, ok := <-r.chbuf\<close>: the worker receives the buffer at the head
  of the channel, returns when the channel is closed and empty, and waits otherwise.
\<close>

definition take_buf :: "nat \<Rightarrow> Reader \<Rightarrow> Reader" where
  "take_buf i r =
     (if i < length (threads r) \<and> threads r ! i = Taking then
        (case chbuf r of
           b # bs \<Rightarrow> r\<lparr>chbuf := bs, threads := (threads r)[i := Claiming b]\<rparr>
         | [] \<Rightarrow> if chbuf_closed r then r\<lparr>threads := (threads r)[i := Exited]\<rparr> else r)
      else r)"

text \<open>The \<open>select\<close>, case \<open><-r.ctx.Done()\<close>.\<close>

definition quit :: "nat \<Rightarrow> Reader \<Rightarrow> Reader" where
  "quit i r =
     (if i < length (threads r) \<and> threads r ! i = Taking \<and> ctx_done r
      then r\<lparr>threads := (threads r)[i := Exited]\<rparr> else r)"

text \<open>
  \<open>chunkID := r.chwid; r.chwid++\<close> under the mutex, then the range; the worker returns
  (dropping its buffer) when the offset is at or beyond the size.
\<close>

definition claim :: "nat \<Rightarrow> Reader \<Rightarrow> Reader" where
  "claim i r =
     (if i < length (threads r) then
        (case threads r ! i of
           Claiming b \<Rightarrow>
             (case thread_range (int (chwid r)) (csize r) (size_r r) of
                None \<Rightarrow> r\<lparr>chwid := chwid r + 1, threads := (threads r)[i := Exited]\<rparr>
              | Some (offset, sz) \<Rightarrow>
                  r\<lparr>chwid := chwid r + 1,
                    threads := (threads r)[i := Fetching b (chwid r) offset sz]\<rparr>)
         | _ \<Rightarrow> r)
      else r)"

text \<open>
  \<open>DownloadFileByName\<close> and \<open>copyContext\<close> succeed: the bytes of the range are written
  to the worker's buffer. Both observe the context, so neither succeeds once it is
  cancelled.
\<close>

definition fetch :: "nat \<Rightarrow> Reader \<Rightarrow> Reader" where
  "fetch i r =
     (if i < length (threads r) then
        (case threads r ! i of
           Fetching b chunkID offset sz \<Rightarrow>
             if ctx_done r then r
             else r\<lparr>buffers := (buffers r)(b := buffers r b @ DownloadFileByName (object r) offset sz),
                    threads := (threads r)[i := Storing b chunkID]\<rparr>
         | _ \<Rightarrow> r)
      else r)"

text \<open>
  \<open>DownloadFileByName\<close> fails with \<open>e\<close> (then \<open>k = 0\<close>), or \<open>copyContext\<close> fails with \<open>e\<close>
  after writing \<open>k\<close> bytes: \<open>r.setErr(err)\<close>, and the worker returns.
\<close>

definition fetch_fail :: "nat \<Rightarrow> error \<Rightarrow> nat \<Rightarrow> Reader \<Rightarrow> Reader" where
  "fetch_fail i e k r =
     (if i < length (threads r) then
        (case threads r ! i of
           Fetching b chunkID offset sz \<Rightarrow>
             setErr e
               (r\<lparr>buffers := (buffers r)
                      (b := buffers r b @ take k (DownloadFileByName (object r) offset sz)),
                  threads := (threads r)[i := Exited]\<rparr>)
         | _ \<Rightarrow> r)
      else r)"

text \<open>\<open>r.chunks[chunkID] = buf\<close> under the mutex; the worker loops.\<close>

definition store :: "nat \<Rightarrow> Reader \<Rightarrow> Reader" where
  "store i r =
     (if i < length (threads r) then
        (case threads r ! i of
           Storing b chunkID \<Rightarrow>
             r\<lparr>chunks := (chunks r)(chunkID \<mapsto> b), threads := (threads r)[i := Taking]\<rparr>
         | _ \<Rightarrow> r)
      else r)"

subsection \<open>initFunc\<close>

text \<open>\<open>r.thread()\<close> starts a goroutine at the top of its loop.\<close>

definition thread :: "Reader \<Rightarrow> Reader" where
  "thread r = r\<lparr>threads := threads r @ [Taking]\<rparr>"

text \<open>\<open>r.chbuf <- &bytes.Buffer{}\<close>: a new empty buffer is allocated and queued.\<close>

definition send_new_Buffer :: "Reader \<Rightarrow> Reader" where
  "send_new_Buffer r =
     r\<lparr>buffers := (buffers r)(nbufs r := []), nbufs := nbufs r + 1, chbuf := chbuf r @ [nbufs r]\<rparr>"

text \<open>The loop \<open>for i := 0; i < cr; i++ { r.thread(); r.chbuf <- &bytes.Buffer{} }\<close>.\<close>

fun init_loop :: "nat \<Rightarrow> Reader \<Rightarrow> Reader" where
  "init_loop 0 r = r"
| "init_loop (Suc k) r = init_loop k (send_new_Buffer (thread r))"

definition initFunc :: "Reader \<Rightarrow> Reader" where
  "initFunc r =
     (let cr = (if ConcurrentDownloads r < 1 then 1 else ConcurrentDownloads r);
          r1 = (if ChunkSize r < 1 then r\<lparr>ChunkSize := 10000000\<rparr> else r);
          r2 = r1\<lparr>csize := ChunkSize r1, chbuf := [], chbuf_cap := nat cr, chbuf_closed := False\<rparr>
      in init_loop (nat cr) r2)"

text \<open>\<open>r.init.Do(r.initFunc)\<close>.\<close>

definition init_Do :: "Reader \<Rightarrow> Reader" where
  "init_Do r = (if init_done r then r else (initFunc r)\<lparr>init_done := True\<rparr>)"

subsection \<open>curChunk and Read\<close>

text \<open>
  \<open>curChunk\<close> waits until \<open>r.chunks[r.chrid]\<close> is there or an error is latched, and
  returns that entry with \<open>r.getErr()\<close>; on a cancelled context it may return
  \<open>(nil, r.ctx.Err())\<close> instead. \<open>None\<close> says that the call waits; \<open>pick_done\<close> is the
  choice of the \<open>select\<close> when both of its cases are ready.
\<close>

definition curChunk :: "bool \<Rightarrow> Reader \<Rightarrow> (addr option \<times> error option) option" where
  "curChunk pick_done r =
     (if chunks r (chrid r) = None \<and> err r = None
      then (if ctx_done r then Some (None, Some Canceled) else None)
      else if ctx_done r \<and> pick_done then Some (None, Some Canceled)
      else Some (chunks r (chrid r), err r))"

text \<open>
  How a call of \<open>Read\<close> ends: it waits in \<open>curChunk\<close>, it waits at the send on a full
  channel, it returns \<open>(n, err)\<close> with the \<open>n\<close> bytes put into \<open>p\<close>, or it panics (close of
  a closed channel, send on a closed channel, a nil chunk).
\<close>

datatype read_outcome =
    Blocked
  | SendBlocked
  | Returned "byte list" "error option"
  | Panicked

text \<open>\<open>Read\<close> with \<open>len(p) = n\<close>.\<close>

definition Read :: "nat \<Rightarrow> bool \<Rightarrow> Reader \<Rightarrow> Reader \<times> read_outcome" where
  "Read n pick_done r0 =
     (let r = init_Do r0 in
      case curChunk pick_done r of
        None \<Rightarrow> (r, Blocked)
      | Some (chunk, Some e) \<Rightarrow> (r, Returned [] (Some e))
      | Some (None, None) \<Rightarrow> (r, Panicked)
      | Some (Some a, None) \<Rightarrow>
          (case Buffer_Read (buffers r a) n of
             (p, e, rest) \<Rightarrow>
               (let r1 = r\<lparr>buffers := (buffers r)(a := rest), read_r := read_r r + length p\<rparr> in
                if e = Some EOF then
                  (if int (read_r r1) \<ge> size_r r1 then
                     (if chbuf_closed r1 then (r1, Panicked)
                      else (r1\<lparr>chbuf_closed := True\<rparr>, Returned p (Some EOF)))
                   else if chbuf_closed r1 then (r1\<lparr>chrid := chrid r1 + 1\<rparr>, Panicked)
                   else if length (chbuf r1) \<ge> chbuf_cap r1
                     then (r1\<lparr>chrid := chrid r1 + 1\<rparr>, SendBlocked)
                   else (r1\<lparr>chrid := chrid r1 + 1, buffers := (buffers r1)(a := []),
                             chbuf := chbuf r1 @ [a]\<rparr>,
                         Returned p None))
                else (r1, Returned p e))))"

subsection \<open>Schedules\<close>

text \<open>
  One step of a session: a step of worker \<open>i\<close>, a call of \<open>Read\<close> by the consumer, or
  \<open>Close\<close>. A step that cannot be taken (the worker is elsewhere, or waits) leaves the
  state as it is. A schedule is a list of steps.
\<close>

datatype event =
    Take nat
  | Quit nat
  | Claim nat
  | Fetch nat
  | FetchFail nat error nat
  | Store nat
  | CallRead nat bool
  | CallClose

fun step :: "event \<Rightarrow> Reader \<Rightarrow> Reader" where
  "step (Take i) r = take_buf i r"
| "step (Quit i) r = quit i r"
| "step (Claim i) r = claim i r"
| "step (Fetch i) r = fetch i r"
| "step (FetchFail i e k) r = fetch_fail i e k r"
| "step (Store i) r = store i r"
| "step (CallRead n pick_done) r = fst (Read n pick_done r)"
| "step CallClose r = Close r"

fun run :: "event list \<Rightarrow> Reader \<Rightarrow> Reader" where
  "run [] r = r"
| "run (ev # evs) r = run evs (step ev r)"

text \<open>What the calls of \<open>Read\<close> in a schedule returned, in order.\<close>

fun returns :: "event list \<Rightarrow> Reader \<Rightarrow> read_outcome list" where
  "returns [] r = []"
| "returns (CallRead n pick_done # evs) r =
     snd (Read n pick_done r) # returns evs (step (CallRead n pick_done) r)"
| "returns (ev # evs) r = returns evs (step ev r)"

text \<open>The bytes the consumer has received from the calls of \<open>Read\<close> in a schedule.\<close>

fun delivered :: "read_outcome list \<Rightarrow> byte list" where
  "delivered [] = []"
| "delivered (Returned p e # os) = p @ delivered os"
| "delivered (out # os) = delivered os"

subsection \<open>Chunks in flight and chunks waiting for the consumer\<close>

text \<open>A worker with a claimed chunk that is not yet in the map.\<close>

fun in_flight :: "wstate \<Rightarrow> bool" where
  "in_flight (Fetching b chunkID offset sz) = True"
| "in_flight (Storing b chunkID) = True"
| "in_flight w = False"

text \<open>A worker that holds a buffer.\<close>

fun holds_buffer :: "wstate \<Rightarrow> bool" where
  "holds_buffer Taking = False"
| "holds_buffer Exited = False"
| "holds_buffer w = True"



subsection \<open>The settings in force\<close>

text \<open>
  The number of workers and the chunk size that \<open>initFunc\<close> arrives at from the two
  settings: \<open>cr\<close>, which is 1 when \<open>ConcurrentDownloads\<close> is below 1, and the chunk size,
  which is 10,000,000 when \<open>ChunkSize\<close> is below 1.
\<close>

definition concurrency :: "int \<Rightarrow> nat" where
  "concurrency c = nat (if c < 1 then 1 else c)"

definition chunk_size :: "int \<Rightarrow> int" where
  "chunk_size s = (if s < 1 then 10000000 else s)"

subsection \<open>Invariants of a session\<close>

text \<open>The number of workers that hold a buffer.\<close>

definition held :: "Reader \<Rightarrow> nat" where
  "held r = length (filter holds_buffer (threads r))"



text \<open>
  A reader made with the settings \<open>c\<close> and \<open>s\<close>: before \<open>initFunc\<close> it has no worker and
  no buffer; afterwards it has \<open>concurrency c\<close> of each, a channel of that capacity, and
  the chunk size \<open>chunk_size s\<close>.
\<close>

definition configured :: "int \<Rightarrow> int \<Rightarrow> Reader \<Rightarrow> bool" where
  "configured c s r \<longleftrightarrow>
     ConcurrentDownloads r = c
     \<and> (if init_done r
        then length (threads r) = concurrency c \<and> nbufs r = concurrency c
             \<and> chbuf_cap r = concurrency c \<and> csize r = chunk_size s \<and> ChunkSize r = chunk_size s
        else threads r = [] \<and> nbufs r = 0 \<and> ChunkSize r = s)"

text \<open>The number of workers that have returned.\<close>

definition exited :: "Reader \<Rightarrow> nat" where
  "exited r = length (filter (\<lambda>w. w = Exited) (threads r))"

text \<open>
  A session on an object of size 0 in which nothing was read, no chunk is stored or in
  flight and no error is latched; every claim so far has ended its worker.
\<close>

definition starved :: "Reader \<Rightarrow> bool" where
  "starved r \<longleftrightarrow>
     size_r r = 0 \<and> read_r r = 0 \<and> chunks r = Map.empty \<and> err r = None
     \<and> list_all (\<lambda>w. \<not> in_flight w) (threads r)
     \<and> chwid r \<le> exited r"

section \<open>Concrete sessions and services\<close>

text \<open>Services and sessions at which the theorems below are instantiated.\<close>

definition upload_ok :: "int \<Rightarrow> string \<Rightarrow> int \<Rightarrow> error option" where
  "upload_ok index sha1 sz = None"

definition upload_unavailable :: "int \<Rightarrow> string \<Rightarrow> int \<Rightarrow> error option" where
  "upload_unavailable index sha1 sz =
     Some (B2Error \<lparr>msg = ''service unavailable'', method_name = ''b2_upload_part'',
                     retry = 0, code = 503\<rparr>)"

definition finish_ok :: "b2FinishLargeFileRequest \<Rightarrow> error + b2FinishLargeFileResponse" where
  "finish_ok b2req = Inr \<lparr>Name = ''object'', FileID = ID b2req\<rparr>"

definition new_LargeFile :: LargeFile where
  "new_LargeFile =
     \<lparr>id_l = ''4_z27'', authToken = ''token'', apiURI = ''https://api'', size_l = 0, hashes = []\<rparr>"

text \<open>Parts 1, 2 and 3 recorded in the order 3, 1, 2.\<close>

definition parts_312 :: LargeFile where
  "parts_312 =
     new_LargeFile\<lparr>hashes := [(3, ''digestC''), (1, ''digestA''), (2, ''digestB'')], size_l := 300\<rparr>"

text \<open>Parts 1 and 3 recorded, part 2 missing.\<close>

definition parts_13 :: LargeFile where
  "parts_13 = new_LargeFile\<lparr>hashes := [(1, ''d1''), (3, ''d3'')], size_l := 200\<rparr>"

text \<open>Part 1 recorded with 100 bytes.\<close>

definition parts_1 :: LargeFile where
  "parts_1 = new_LargeFile\<lparr>hashes := [(1, ''d1'')], size_l := 100\<rparr>"

text \<open>The error of a range request answered with status 503.\<close>

definition download_unavailable :: error where
  "download_unavailable =
     B2Error \<lparr>msg = ''service unavailable'', method_name = ''b2_download_file_by_name'',
              retry = 0, code = 503\<rparr>"

text \<open>An object of three bytes, read by one worker in chunks of two bytes.\<close>

definition small_object :: "byte list" where
  "small_object = [1, 2, 3]"

text \<open>
  The first \<open>Read\<close> starts the session and waits; the worker downloads and stores chunk
  0; a \<open>Read\<close> takes its two bytes, and the next one finds it drained and passes on to
  chunk 1.
\<close>

definition consume_chunk0 :: "event list" where
  "consume_chunk0 =
     [CallRead 2 False, Take 0, Claim 0, Fetch 0, Store 0, CallRead 2 False, CallRead 2 False]"

text \<open>The first \<open>Read\<close> starts the session; the request for chunk 0 fails with status 503.\<close>

definition fail_chunk0 :: "event list" where
  "fail_chunk0 = [CallRead 2 False, Take 0, Claim 0, FetchFail 0 download_unavailable 0]"



text \<open>An empty object: the first \<open>Read\<close> starts the one worker, which takes a buffer and claims.\<close>

definition empty_session :: "event list" where
  "empty_session = [CallRead 1 False, Take 0, Claim 0, Take 0]"

section \<open>Arithmetic of \<open>wrap64\<close>\<close>

lemma wrap64_id: "- (2 ^ 63) \<le> x \<Longrightarrow> x < 2 ^ 63 \<Longrightarrow> wrap64 x = x"
  by (simp add: wrap64_def)

lemma wrap64_wrap64_add: "wrap64 (wrap64 a + b) = wrap64 (a + b)"
proof -
  have "(((a + 2 ^ 63) mod 2 ^ 64 - 2 ^ 63) + b + 2 ^ 63) mod 2 ^ 64
        = ((a + 2 ^ 63) mod 2 ^ 64 + b) mod (2 ^ 64 :: int)"
    by (simp add: algebra_simps)
  also have "\<dots> = (a + 2 ^ 63 + b) mod 2 ^ 64"
    by (rule mod_add_left_eq)
  finally show ?thesis
    by (simp add: wrap64_def algebra_simps)
qed

section \<open>The classifier\<close>

text \<open>
  C5, as amended. \<open>Action\<close> decides in this order: a \<open>b2err\<close> whose retry-after is
  positive gives \<open>Retry\<close>; else a 5xx status of \<open>b2_upload_file\<close> or \<open>b2_upload_part\<close>
  gives \<open>AttemptNewUpload\<close>; else status 401 gives \<open>ReAuthenticate\<close>, except for
  \<open>b2_authorize_account\<close>, which gives \<open>Punt\<close>; else 429, 500 and 503 give \<open>Retry\<close>;
  every other status gives \<open>Punt\<close>, and so does every error that is not a \<open>b2err\<close>.
  \<open>Backoff\<close> is the retry-after field in seconds (as long as that many nanoseconds fit
  in 64 bits), so it is zero when the field is zero, and it is zero for every error
  that is not a \<open>b2err\<close>.
\<close>

theorem Action_Backoff_classifier:
  "(case er of
      B2Error e \<Rightarrow>
        Action er =
          (if 0 < retry e then Retry
           else if 500 \<le> code e \<and> code e < 600
                   \<and> method_name e \<in> {''b2_upload_file'', ''b2_upload_part''}
                then AttemptNewUpload
           else if code e = 401
                then (if method_name e = ''b2_authorize_account'' then Punt else ReAuthenticate)
           else if code e \<in> {429, 500, 503} then Retry
           else Punt)
        \<and> (\<bar>retry e\<bar> \<le> 9223372036 \<longrightarrow> Backoff er = retry e * Second)
    | _ \<Rightarrow> Action er = Punt \<and> Backoff er = 0)"
proof (cases er)
  case (B2Error e)
  have "\<bar>retry e\<bar> \<le> 9223372036 \<Longrightarrow> wrap64 (retry e * Second) = retry e * Second"
    by (rule wrap64_id) (simp_all add: Second_def abs_le_iff)
  with B2Error show ?thesis by auto
qed simp_all

text \<open>The classifier at status 503 of \<open>b2_upload_part\<close> with a retry-after of 30 seconds.\<close>

theorem Action_Backoff_classifier_witness:
  "Action (B2Error \<lparr>msg = ''slow down'', method_name = ''b2_upload_part'', retry = 30, code = 503\<rparr>)
     = Retry
   \<and> Backoff (B2Error \<lparr>msg = ''slow down'', method_name = ''b2_upload_part'', retry = 30, code = 503\<rparr>)
     = 30 * Second"
  using Action_Backoff_classifier
    [of "B2Error \<lparr>msg = ''slow down'', method_name = ''b2_upload_part'', retry = 30, code = 503\<rparr>"]
  by simp

text \<open>
  C5 as stated asks for \<open>Retry\<close> whenever the retry-after is non-zero. A \<open>b2err\<close> with a
  negative retry-after (\<open>mkErr\<close> parses the header with \<open>strconv.ParseInt\<close>, which accepts
  a sign) and status 404 is not retried: the guard of the source is \<open>e.retry > 0\<close>.
\<close>

theorem Action_negative_retry_counterexample:
  "retry \<lparr>msg = ''not found'', method_name = ''b2_list_buckets'', retry = - 1, code = 404\<rparr> \<noteq> 0
   \<and> Action (B2Error \<lparr>msg = ''not found'', method_name = ''b2_list_buckets'', retry = - 1, code = 404\<rparr>)
       = Punt"
  by simp

section \<open>Recording parts\<close>

text \<open>
  C10. When the request of \<open>UploadPart\<close> fails, the call returns 0 and the error, and the
  session (digest map and running size) is exactly as before. A call whose trace writes
  to the session, or whose session differs afterwards, is one whose request succeeded;
  and every write of every call happens between the lock and the unlock of the mutex.
\<close>

theorem UploadPart_failure_leaves_session:
  "(\<forall>e. net index sha1 sz = Some e \<longrightarrow>
        UploadPart net l sha1 sz index = ((0, Some e), l, [SubmitPart index sha1 sz]))
   \<and> (mutates (snd (snd (UploadPart net l sha1 sz index))) \<longrightarrow> net index sha1 sz = None)
   \<and> (fst (snd (UploadPart net l sha1 sz index)) \<noteq> l \<longrightarrow> net index sha1 sz = None)
   \<and> guarded False (snd (snd (UploadPart net l sha1 sz index)))"
  by (auto simp: UploadPart_def split: option.splits)

text \<open>A part upload answered with status 503 leaves the session with part 1 alone.\<close>

theorem UploadPart_failure_leaves_session_witness:
  "UploadPart upload_unavailable parts_1 ''d2'' 100 2
     = ((0, Some (B2Error \<lparr>msg = ''service unavailable'', method_name = ''b2_upload_part'',
                            retry = 0, code = 503\<rparr>)),
        parts_1, [SubmitPart 2 ''d2'' 100])"
  using UploadPart_failure_leaves_session [of upload_unavailable 2 "''d2''" 100 parts_1]
  by (simp add: upload_unavailable_def)

text \<open>
  C3, as amended. When \<open>UploadPart\<close> succeeds twice for the same part number, with digests
  \<open>sha1\<close>, \<open>sha2\<close> and sizes \<open>s1\<close>, \<open>s2\<close>, the second call replaces the digest recorded for
  that number (the keys of the map are unchanged, the number now maps to \<open>sha2\<close>), and
  the running size grows by \<open>s2\<close> once more: after the two calls it is the size before
  them plus \<open>s1 + s2\<close> (in 64-bit arithmetic).
\<close>

theorem UploadPart_twice_accumulates:
  assumes "UploadPart net l sha1 s1 index = ((n1, None), l1, t1)"
    and "UploadPart net l1 sha2 s2 index = ((n2, None), l2, t2)"
  shows "map_of (hashes l2) = (map_of (hashes l1))(index \<mapsto> sha2)
     \<and> map_of (hashes l1) index = Some sha1
     \<and> map fst (hashes l2) = map fst (hashes l1)
     \<and> size_l l1 = wrap64 (size_l l + s1)
     \<and> size_l l2 = wrap64 (size_l l + s1 + s2)"
proof -
  from assms(1) have l1:
    "l1 = l\<lparr>hashes := AList.update index sha1 (hashes l), size_l := wrap64 (size_l l + s1)\<rparr>"
    by (auto simp: UploadPart_def split: option.splits)
  from assms(2) have l2:
    "l2 = l1\<lparr>hashes := AList.update index sha2 (hashes l1), size_l := wrap64 (size_l l1 + s2)\<rparr>"
    by (auto simp: UploadPart_def split: option.splits)
  have k: "index \<in> fst ` set (hashes l1)"
    by (simp add: l1 AList.dom_update)
  show ?thesis
    using k
    by (simp add: l1 l2 AList.update_conv' AList.update_keys wrap64_wrap64_add insert_absorb)
qed

text \<open>Part 2 uploaded with 5 bytes and again with 7 bytes, on a session of 100 bytes.\<close>

theorem UploadPart_twice_accumulates_witness:
  "hashes (fst (snd (UploadPart upload_ok
       (fst (snd (UploadPart upload_ok parts_1 ''d2'' 5 2))) ''e2'' 7 2)))
     = [(1, ''d1''), (2, ''e2'')]
   \<and> size_l (fst (snd (UploadPart upload_ok
       (fst (snd (UploadPart upload_ok parts_1 ''d2'' 5 2))) ''e2'' 7 2))) = 112"
  using UploadPart_twice_accumulates
    [of upload_ok parts_1 "''d2''" 5 2 5
        "fst (snd (UploadPart upload_ok parts_1 ''d2'' 5 2))"
        "snd (snd (UploadPart upload_ok parts_1 ''d2'' 5 2))"
        "''e2''" 7 7
        "fst (snd (UploadPart upload_ok
           (fst (snd (UploadPart upload_ok parts_1 ''d2'' 5 2))) ''e2'' 7 2))"
        "snd (snd (UploadPart upload_ok
           (fst (snd (UploadPart upload_ok parts_1 ''d2'' 5 2))) ''e2'' 7 2))"]
  by (simp add: UploadPart_def upload_ok_def parts_1_def new_LargeFile_def wrap64_def)

text \<open>
  C3 as stated asks for a change of the running size by \<open>s2 - s1\<close>. With \<open>s1 = 5\<close> and
  \<open>s2 = 7\<close> the second call changes it by 7, not by 2.
\<close>

theorem UploadPart_twice_counterexample:
  "size_l (fst (snd (UploadPart upload_ok
       (fst (snd (UploadPart upload_ok parts_1 ''d2'' 5 2))) ''e2'' 7 2)))
   - size_l (fst (snd (UploadPart upload_ok parts_1 ''d2'' 5 2)))
   \<noteq> 7 - 5"
  by (simp add: UploadPart_def upload_ok_def parts_1_def new_LargeFile_def wrap64_def)

section \<open>Finishing a large file\<close>

lemma range_hashes_bad_key:
  "(k, v) \<in> set kvs \<Longrightarrow> \<not> (1 \<le> k \<and> k \<le> int (length arr)) \<Longrightarrow> range_hashes kvs arr = None"
  by (induction kvs arr rule: range_hashes.induct) auto

text \<open>Distinct keys that are not exactly \<open>1..K\<close>, \<open>K\<close> their number, have one outside.\<close>

lemma keys_not_dense:
  assumes "distinct ks" and "set ks \<noteq> {1..int (length ks)}"
  shows "\<exists>k \<in> set ks. \<not> (1 \<le> k \<and> k \<le> int (length ks))"
proof (rule ccontr)
  assume "\<not> ?thesis"
  then have sub: "set ks \<subseteq> {1..int (length ks)}" by auto
  have "card (set ks) = length ks" using assms(1) by (rule distinct_card)
  then have "card (set ks) = card {1..int (length ks)}" by simp
  with sub have "set ks = {1..int (length ks)}"
    by (intro card_subset_eq) simp_all
  with assms(2) show False by simp
qed

text \<open>
  With distinct keys inside the slice, the loop ends, and every position holds the
  digest of its part number, or what it held before when that number is absent.
\<close>

lemma range_hashes_dense:
  "distinct (map fst kvs) \<Longrightarrow> \<forall>k \<in> fst ` set kvs. 1 \<le> k \<and> k \<le> int (length arr) \<Longrightarrow>
   \<exists>arr'. range_hashes kvs arr = Some arr' \<and> length arr' = length arr \<and>
     (\<forall>i < length arr.
        arr' ! i = (case map_of kvs (int i + 1) of Some v \<Rightarrow> v | None \<Rightarrow> arr ! i))"
proof (induction kvs arr rule: range_hashes.induct)
  case (1 arr)
  then show ?case by simp
next
  case (2 k v kvs arr)
  let ?arr1 = "arr[nat (k - 1) := v]"
  from "2.prems" have inr: "0 \<le> k - 1" "k - 1 < int (length arr)" by auto
  from "2.prems" have d: "distinct (map fst kvs)" and nk: "k \<notin> fst ` set kvs" by auto
  from "2.prems" have r: "\<forall>k \<in> fst ` set kvs. 1 \<le> k \<and> k \<le> int (length ?arr1)" by auto
  from "2.IH"[OF _ d r] inr obtain arr' where
    a: "range_hashes kvs ?arr1 = Some arr'" "length arr' = length ?arr1"
    and b: "\<forall>i < length ?arr1.
              arr' ! i = (case map_of kvs (int i + 1) of Some v \<Rightarrow> v | None \<Rightarrow> ?arr1 ! i)"
    by auto
  have nk': "map_of kvs k = None" using nk by (simp add: map_of_eq_None_iff)
  have "\<forall>i < length arr.
          arr' ! i = (case map_of ((k, v) # kvs) (int i + 1) of Some v \<Rightarrow> v | None \<Rightarrow> arr ! i)"
  proof (intro allI impI)
    fix i assume i: "i < length arr"
    show "arr' ! i = (case map_of ((k, v) # kvs) (int i + 1) of Some v \<Rightarrow> v | None \<Rightarrow> arr ! i)"
    proof (cases "int i + 1 = k")
      case True
      then have "nat (k - 1) = i" by simp
      with b i nk' True show ?thesis by simp
    next
      case False
      then have "nat (k - 1) \<noteq> i" using inr by auto
      with b i False show ?thesis by (auto split: option.splits)
    qed
  qed
  with a inr show ?case by simp
qed

text \<open>
  C2, as amended. When the recorded part numbers are not exactly \<open>1..K\<close>, \<open>K\<close> the number
  of recorded parts, \<open>FinishLargeFile\<close> panics on an index out of range while it fills the
  digest array: it returns no error value, and it hands nothing to the network (the
  mutex is taken and released, and that is all).
\<close>

theorem FinishLargeFile_gap_panics:
  assumes "distinct (map fst (hashes l))"
    and "set (map fst (hashes l)) \<noteq> {1..int (length (hashes l))}"
  shows "FinishLargeFile net l = (Panic ''index out of range'', [MuLock, MuUnlock])
     \<and> \<not> is_Err (fst (FinishLargeFile net l))
     \<and> \<not> submits (snd (FinishLargeFile net l))"
proof -
  from keys_not_dense[OF assms(1)] assms(2)
  obtain k where k: "k \<in> set (map fst (hashes l))"
    "\<not> (1 \<le> k \<and> k \<le> int (length (hashes l)))"
    by auto
  then obtain v where "(k, v) \<in> set (hashes l)" by auto
  with k(2) have "range_hashes (hashes l) (replicate (length (hashes l)) '''') = None"
    by (intro range_hashes_bad_key[of k v]) simp_all
  then show ?thesis by (simp add: FinishLargeFile_def)
qed

text \<open>Parts 1 and 3 without part 2.\<close>

theorem FinishLargeFile_gap_panics_witness:
  "FinishLargeFile finish_ok parts_13 = (Panic ''index out of range'', [MuLock, MuUnlock])"
proof -
  have "(3::int) \<in> {1, 3}" "(3::int) \<notin> {1..2}" by simp_all
  then have "{1, 3} \<noteq> {1..2::int}" by metis
  with FinishLargeFile_gap_panics [of parts_13 finish_ok]
  show ?thesis by (simp add: parts_13_def new_LargeFile_def)
qed

text \<open>
  C2 as stated asks for a validation error. With parts 1 and 3 recorded the call
  returns no error value at all: no branch of the source returns one before the request.
\<close>

theorem FinishLargeFile_gap_counterexample:
  "\<not> is_Err (fst (FinishLargeFile finish_ok parts_13))"
  by (simp add: FinishLargeFile_def parts_13_def new_LargeFile_def)

text \<open>
  C4. When the recorded part numbers are exactly \<open>1..K\<close>, in whatever order the map holds
  (or yields) them, \<open>FinishLargeFile\<close> submits a digest array of length \<open>K\<close> whose position
  \<open>p - 1\<close> holds the digest of part \<open>p\<close>; when the request succeeds, the file handle it
  returns has the session's running size as its \<open>Size\<close>, and when the request fails, it
  returns that error.
\<close>

theorem FinishLargeFile_dense_manifest:
  assumes "distinct (map fst (hashes l))"
    and "set (map fst (hashes l)) = {1..int (length (hashes l))}"
  shows "\<exists>hs. length hs = length (hashes l)
      \<and> (\<forall>p \<in> {1..int (length (hashes l))}. map_of (hashes l) p = Some (hs ! nat (p - 1)))
      \<and> FinishLargeFile net l =
          (case net \<lparr>ID = id_l l, Hashes = hs\<rparr> of
             Inl e \<Rightarrow> (Err e, [MuLock, SubmitFinish \<lparr>ID = id_l l, Hashes = hs\<rparr>, MuUnlock])
           | Inr b2resp \<Rightarrow>
               (Ok \<lparr>File_Name = Name b2resp, File_Size = size_l l, File_id = FileID b2resp\<rparr>,
                [MuLock, SubmitFinish \<lparr>ID = id_l l, Hashes = hs\<rparr>, MuUnlock]))"
proof -
  let ?K = "length (hashes l)"
  have r: "\<forall>k \<in> fst ` set (hashes l). 1 \<le> k \<and> k \<le> int (length (replicate ?K ''''))"
    using assms(2) by auto
  from range_hashes_dense[OF assms(1) r] obtain hs where
    hs: "range_hashes (hashes l) (replicate ?K '''') = Some hs" "length hs = ?K"
    and nth: "\<forall>i < ?K. hs ! i = (case map_of (hashes l) (int i + 1) of
                                     Some v \<Rightarrow> v | None \<Rightarrow> replicate ?K '''' ! i)"
    by auto
  have "map_of (hashes l) p = Some (hs ! nat (p - 1))" if p: "p \<in> {1..int ?K}" for p
  proof -
    from p assms(2) have "p \<in> fst ` set (hashes l)" by auto
    then have "map_of (hashes l) p \<noteq> None" by (simp add: map_of_eq_None_iff)
    then obtain v where v: "map_of (hashes l) p = Some v" by blast
    from p have "nat (p - 1) < ?K" "int (nat (p - 1)) + 1 = p" by auto
    with nth v show ?thesis by auto
  qed
  with hs show ?thesis
    by (intro exI[of _ hs]) (simp add: FinishLargeFile_def Let_def)
qed

text \<open>
  Parts recorded in the order 3, 1, 2: the manifest is \<open>digestA\<close>, \<open>digestB\<close>, \<open>digestC\<close>,
  and the file has the 300 bytes of the session.
\<close>

theorem FinishLargeFile_dense_manifest_witness:
  "distinct (map fst (hashes parts_312))
   \<and> set (map fst (hashes parts_312)) = {1..int (length (hashes parts_312))}
   \<and> fst (FinishLargeFile finish_ok parts_312)
        = Ok \<lparr>File_Name = ''object'', File_Size = 300, File_id = ''4_z27''\<rparr>
   \<and> (\<exists>hs. length hs = 3 \<and> hs ! 0 = ''digestA'' \<and> hs ! 1 = ''digestB'' \<and> hs ! 2 = ''digestC''
         \<and> snd (FinishLargeFile finish_ok parts_312)
             = [MuLock, SubmitFinish \<lparr>ID = ''4_z27'', Hashes = hs\<rparr>, MuUnlock])"
proof -
  have d: "distinct (map fst (hashes parts_312))"
    by (simp add: parts_312_def new_LargeFile_def)
  have s: "set (map fst (hashes parts_312)) = {1..int (length (hashes parts_312))}"
    by (auto simp: parts_312_def new_LargeFile_def)
  from FinishLargeFile_dense_manifest[OF d s, of finish_ok]
  obtain hs where len: "length hs = length (hashes parts_312)"
    and nth: "\<forall>p \<in> {1..int (length (hashes parts_312))}.
                map_of (hashes parts_312) p = Some (hs ! nat (p - 1))"
    and fin: "FinishLargeFile finish_ok parts_312 =
       (case finish_ok \<lparr>ID = id_l parts_312, Hashes = hs\<rparr> of
          Inl e \<Rightarrow> (Err e, [MuLock, SubmitFinish \<lparr>ID = id_l parts_312, Hashes = hs\<rparr>, MuUnlock])
        | Inr b2resp \<Rightarrow>
            (Ok \<lparr>File_Name = Name b2resp, File_Size = size_l parts_312, File_id = FileID b2resp\<rparr>,
             [MuLock, SubmitFinish \<lparr>ID = id_l parts_312, Hashes = hs\<rparr>, MuUnlock]))"
    by blast
  have len3: "length hs = 3"
    using len by (simp add: parts_312_def new_LargeFile_def)
  have "(1::int) \<in> {1..int (length (hashes parts_312))}"
    "(2::int) \<in> {1..int (length (hashes parts_312))}"
    "(3::int) \<in> {1..int (length (hashes parts_312))}"
    by (simp_all add: parts_312_def new_LargeFile_def)
  with nth have "map_of (hashes parts_312) 1 = Some (hs ! nat (1 - 1))"
    "map_of (hashes parts_312) 2 = Some (hs ! nat (2 - 1))"
    "map_of (hashes parts_312) 3 = Some (hs ! nat (3 - 1))"
    by blast+
  then have pos: "hs ! 0 = ''digestA''" "hs ! 1 = ''digestB''" "hs ! 2 = ''digestC''"
    by (simp_all add: parts_312_def new_LargeFile_def)
  have res: "FinishLargeFile finish_ok parts_312 =
       (Ok \<lparr>File_Name = ''object'', File_Size = 300, File_id = ''4_z27''\<rparr>,
        [MuLock, SubmitFinish \<lparr>ID = ''4_z27'', Hashes = hs\<rparr>, MuUnlock])"
    using fin by (simp add: parts_312_def new_LargeFile_def finish_ok_def)
  from len3 pos res d s show ?thesis by simp
qed

section \<open>The range of a chunk\<close>

lemma thread_range_exact:
  assumes "0 \<le> chunkID" and "0 \<le> cs" and "tsize < 2 ^ 63" and "(chunkID + 1) * cs < 2 ^ 63"
  shows "thread_range chunkID cs tsize =
     (if tsize \<le> chunkID * cs then None
      else Some (chunkID * cs, min cs (tsize - chunkID * cs)))"
proof -
  have nn: "0 \<le> chunkID * cs" using assms(1,2) by simp
  have lt: "chunkID * cs + cs < 2 ^ 63" using assms(4) by (simp add: algebra_simps)
  have lt0: "chunkID * cs < 2 ^ 63" using lt assms(2) by linarith
  have o: "wrap64 (chunkID * cs) = chunkID * cs"
    using nn lt0 by (intro wrap64_id) linarith+
  have s: "wrap64 (chunkID * cs + cs) = chunkID * cs + cs"
    using nn lt assms(2) by (intro wrap64_id) linarith+
  have d: "wrap64 (tsize - chunkID * cs) = tsize - chunkID * cs" if "chunkID * cs < tsize"
    using that nn assms(3) by (intro wrap64_id) linarith+
  show ?thesis
    using d by (auto simp: thread_range_def Let_def o s min_def)
qed

section \<open>Counting under updates\<close>

lemma length_filter_update:
  "i < length xs \<Longrightarrow>
   length (filter P (xs[i := y])) + (if P (xs ! i) then 1 else 0)
     = length (filter P xs) + (if P y then 1 else 0)"
proof (induction xs arbitrary: i)
  case Nil
  then show ?case by simp
next
  case (Cons x xs)
  then show ?case by (cases i) auto
qed



lemma list_all_update:
  "list_all P xs \<Longrightarrow> P y \<Longrightarrow> list_all P (xs[i := y])"
  by (induction xs arbitrary: i) (auto split: nat.splits)





lemma setErr_fields [simp]:
  "threads (setErr e r) = threads r" "chbuf (setErr e r) = chbuf r" "nbufs (setErr e r) = nbufs r"
  "chunks (setErr e r) = chunks r" "chwid (setErr e r) = chwid r" "chrid (setErr e r) = chrid r"
  "chbuf_cap (setErr e r) = chbuf_cap r" "init_done (setErr e r) = init_done r"
  "csize (setErr e r) = csize r" "ChunkSize (setErr e r) = ChunkSize r"
  "ConcurrentDownloads (setErr e r) = ConcurrentDownloads r" "size_r (setErr e r) = size_r r"
  "ctx_done (setErr e r) = ctx_done r" "chbuf_closed (setErr e r) = chbuf_closed r"
  "read_r (setErr e r) = read_r r" "object (setErr e r) = object r"
  by (simp_all add: setErr_def)

section \<open>What initFunc and Read leave alone\<close>

lemma init_loop_threads: "threads (init_loop k r) = threads r @ replicate k Taking"
  by (induction k arbitrary: r)
     (simp_all add: thread_def send_new_Buffer_def replicate_append_same)

lemma init_loop_nbufs: "nbufs (init_loop k r) = nbufs r + k"
  by (induction k arbitrary: r) (simp_all add: thread_def send_new_Buffer_def)

lemma init_loop_chbuf: "chbuf (init_loop k r) = chbuf r @ [nbufs r..<nbufs r + k]"
  by (induction k arbitrary: r) (simp_all add: thread_def send_new_Buffer_def upt_rec)

lemma init_loop_others:
  "csize (init_loop k r) = csize r" "ChunkSize (init_loop k r) = ChunkSize r"
  "ConcurrentDownloads (init_loop k r) = ConcurrentDownloads r"
  "chbuf_cap (init_loop k r) = chbuf_cap r" "chbuf_closed (init_loop k r) = chbuf_closed r"
  "chwid (init_loop k r) = chwid r" "chrid (init_loop k r) = chrid r"
  "read_r (init_loop k r) = read_r r" "size_r (init_loop k r) = size_r r"
  "object (init_loop k r) = object r" "ctx_done (init_loop k r) = ctx_done r"
  "err (init_loop k r) = err r" "chunks (init_loop k r) = chunks r"
  "init_done (init_loop k r) = init_done r"
  by (induction k arbitrary: r) (simp_all add: thread_def send_new_Buffer_def)

lemma init_loop_buffers:
  "(\<forall>a. buffers r a = []) \<Longrightarrow> buffers (init_loop k r) a = []"
  by (induction k arbitrary: r) (simp_all add: thread_def send_new_Buffer_def)

lemma Read_Blocked:
  "curChunk pick_done (init_Do r) = None \<Longrightarrow> Read n pick_done r = (init_Do r, Blocked)"
  by (simp add: Read_def Let_def)

lemma Read_error:
  "curChunk pick_done (init_Do r) = Some (c, Some e) \<Longrightarrow>
   Read n pick_done r = (init_Do r, Returned [] (Some e))"
  by (simp add: Read_def Let_def split: option.splits)



lemma Read_fields:
  "err (fst (Read n pick_done r)) = err (init_Do r)"
  "ctx_done (fst (Read n pick_done r)) = ctx_done (init_Do r)"
  "threads (fst (Read n pick_done r)) = threads (init_Do r)"
  "nbufs (fst (Read n pick_done r)) = nbufs (init_Do r)"
  "chbuf_cap (fst (Read n pick_done r)) = chbuf_cap (init_Do r)"
  "csize (fst (Read n pick_done r)) = csize (init_Do r)"
  "ChunkSize (fst (Read n pick_done r)) = ChunkSize (init_Do r)"
  "ConcurrentDownloads (fst (Read n pick_done r)) = ConcurrentDownloads (init_Do r)"
  "init_done (fst (Read n pick_done r)) = init_done (init_Do r)"
  "size_r (fst (Read n pick_done r)) = size_r (init_Do r)"
  "object (fst (Read n pick_done r)) = object (init_Do r)"
  "chwid (fst (Read n pick_done r)) = chwid (init_Do r)"
  "chunks (fst (Read n pick_done r)) = chunks (init_Do r)"
  by (simp_all add: Read_def Let_def split: option.splits prod.splits)

lemma init_Do_fields:
  "err (init_Do r) = err r" "ctx_done (init_Do r) = ctx_done r"
  "ConcurrentDownloads (init_Do r) = ConcurrentDownloads r"
  "size_r (init_Do r) = size_r r" "object (init_Do r) = object r"
  "chwid (init_Do r) = chwid r" "chrid (init_Do r) = chrid r" "chunks (init_Do r) = chunks r"
  "read_r (init_Do r) = read_r r" "init_done (init_Do r)"
  by (simp_all add: init_Do_def initFunc_def Let_def init_loop_others)

lemma init_Do_idem: "init_done r \<Longrightarrow> init_Do r = r"
  by (simp add: init_Do_def)

lemma init_Do_fresh:
  assumes "\<not> init_done r" and "threads r = []" and "nbufs r = 0"
  shows "threads (init_Do r) = replicate (concurrency (ConcurrentDownloads r)) Taking"
    and "chbuf (init_Do r) = [0..<concurrency (ConcurrentDownloads r)]"
    and "nbufs (init_Do r) = concurrency (ConcurrentDownloads r)"
    and "chbuf_cap (init_Do r) = concurrency (ConcurrentDownloads r)"
    and "csize (init_Do r) = chunk_size (ChunkSize r)"
    and "ChunkSize (init_Do r) = chunk_size (ChunkSize r)"
    and "\<not> chbuf_closed (init_Do r)"
  using assms
  by (simp_all add: init_Do_def initFunc_def Let_def init_loop_threads init_loop_nbufs
      init_loop_chbuf init_loop_others concurrency_def chunk_size_def)

lemma first_Read_new:
  "fst (Read n pick_done (new_Reader obj c s)) = init_Do (new_Reader obj c s)"
  by (simp add: Read_def Let_def curChunk_def init_Do_fields new_Reader_def)

section \<open>The buffers are conserved\<close>

















section \<open>The settings stay in force\<close>

lemma configured_init_Do: "configured c s r \<Longrightarrow> configured c s (init_Do r)"
proof (cases "init_done r")
  case True
  then show "configured c s r \<Longrightarrow> configured c s (init_Do r)" by (simp add: init_Do_idem)
next
  case False
  assume "configured c s r"
  with False have f: "threads r = []" "nbufs r = 0" "ChunkSize r = s" "ConcurrentDownloads r = c"
    by (simp_all add: configured_def)
  from init_Do_fresh[OF False f(1,2)] f(3,4) show "configured c s (init_Do r)"
    by (simp add: configured_def init_Do_fields)
qed

lemma configured_Read: "configured c s r \<Longrightarrow> configured c s (fst (Read n pick_done r))"
  using configured_init_Do[of c s r] by (simp add: configured_def Read_fields)

lemma configured_step: "configured c s r \<Longrightarrow> configured c s (step ev r)"
proof (cases ev)
  case (CallRead n pick_done)
  then show "configured c s r \<Longrightarrow> configured c s (step ev r)" by (simp add: configured_Read)
qed (auto simp: configured_def take_buf_def quit_def claim_def fetch_def fetch_fail_def
      store_def Close_def split: list.splits wstate.splits option.splits)

lemma configured_run: "configured c s r \<Longrightarrow> configured c s (run evs r)"
  by (induction evs arbitrary: r) (simp_all add: configured_step)

lemma configured_new: "configured c s (new_Reader obj c s)"
  by (simp add: configured_def new_Reader_def)

lemma init_done_step: "init_done r \<Longrightarrow> init_done (step ev r)"
  by (cases ev)
     (auto simp: take_buf_def quit_def claim_def fetch_def fetch_fail_def store_def Close_def
        Read_fields init_Do_fields split: list.splits wstate.splits option.splits)

lemma init_done_run: "init_done r \<Longrightarrow> init_done (run evs r)"
  by (induction evs arbitrary: r) (simp_all add: init_done_step)

section \<open>The latched error\<close>

lemma err_step: "err r = Some e \<Longrightarrow> err (step ev r) = Some e"
  by (cases ev)
     (auto simp: take_buf_def quit_def claim_def fetch_def fetch_fail_def store_def Close_def
        setErr_def Read_fields init_Do_fields split: list.splits wstate.splits option.splits)

lemma err_run: "err r = Some e \<Longrightarrow> err (run evs r) = Some e"
  by (induction evs arbitrary: r) (simp_all add: err_step)

lemma Read_latched:
  assumes "err r = Some e"
  shows "snd (Read n pick_done r)
           = Returned [] (Some (if ctx_done r \<and> pick_done then Canceled else e))"
proof -
  have "curChunk pick_done (init_Do r) =
          Some (if ctx_done r \<and> pick_done then (None, Some Canceled)
                else (chunks r (chrid r), Some e))"
    using assms by (simp add: curChunk_def init_Do_fields)
  then show ?thesis
    by (cases "ctx_done r \<and> pick_done") (auto simp: Read_error)
qed

section \<open>A session on an empty object\<close>

lemma exited_update:
  "i < length (threads r) \<Longrightarrow> threads r ! i \<noteq> Exited \<Longrightarrow>
   length (filter (\<lambda>w. w = Exited) ((threads r)[i := w])) = exited r + (if w = Exited then 1 else 0)"
  using length_filter_update[of i "threads r" "\<lambda>w. w = Exited" w] by (simp add: exited_def)

lemma exited_less:
  assumes "i < length (threads r)" and "threads r ! i \<noteq> Exited"
  shows "exited r < length (threads r)"
proof -
  have "filter (\<lambda>w. w = Exited) (threads r) \<noteq> threads r"
  proof
    assume "filter (\<lambda>w. w = Exited) (threads r) = threads r"
    then have "\<forall>w \<in> set (threads r). w = Exited" by (simp add: filter_id_conv)
    with assms show False by (metis nth_mem)
  qed
  then have "length (filter (\<lambda>w. w = Exited) (threads r)) \<noteq> length (threads r)"
    by (metis length_filter_le filter_id_conv length_filter_less linorder_not_less order_le_less)
  then show ?thesis
    unfolding exited_def using length_filter_le[of "\<lambda>w. w = Exited" "threads r"] by linarith
qed

lemma starved_take_buf: "starved r \<Longrightarrow> starved (take_buf i r)"
proof -
  assume p: "starved r"
  show ?thesis
  proof (cases "i < length (threads r) \<and> threads r ! i = Taking")
    case False
    then show ?thesis using p by (auto simp: take_buf_def)
  next
    case True
    then have i: "i < length (threads r)" and t: "threads r ! i \<noteq> Exited" by auto
    have l: "list_all (\<lambda>w. \<not> in_flight w) ((threads r)[i := w])" if "\<not> in_flight w" for w
      using p that by (auto simp: starved_def intro: list_all_update)
    from True p exited_update[OF i t] l[of Exited] l[of "Claiming b" for b] show ?thesis
      by (auto simp: take_buf_def starved_def exited_def split: list.splits)
  qed
qed

lemma starved_quit: "starved r \<Longrightarrow> starved (quit i r)"
proof -
  assume p: "starved r"
  show ?thesis
  proof (cases "i < length (threads r) \<and> threads r ! i = Taking \<and> ctx_done r")
    case False
    then show ?thesis using p by (auto simp: quit_def)
  next
    case True
    then have i: "i < length (threads r)" and t: "threads r ! i \<noteq> Exited" by auto
    have l: "list_all (\<lambda>w. \<not> in_flight w) ((threads r)[i := Exited])"
      using p by (auto simp: starved_def intro: list_all_update)
    from True p exited_update[OF i t, of Exited] l show ?thesis
      by (auto simp: quit_def starved_def exited_def)
  qed
qed

lemma starved_claim:
  assumes p: "starved r" and c: "0 \<le> csize r" "int (length (threads r)) * csize r < 2 ^ 63"
  shows "starved (claim i r)"
proof (cases "i < length (threads r)")
  case False
  then show ?thesis using p by (simp add: claim_def)
next
  case i: True
  show ?thesis
  proof (cases "threads r ! i")
    case (Claiming b)
    then have t: "threads r ! i \<noteq> Exited" by simp
    from exited_less[OF i t] p have "chwid r + 1 \<le> length (threads r)"
      by (simp add: starved_def)
    then have "(int (chwid r) + 1) * csize r \<le> int (length (threads r)) * csize r"
      using c(1) by (intro mult_right_mono) simp_all
    with c(2) have b: "(int (chwid r) + 1) * csize r < 2 ^ 63" by linarith
    have "thread_range (int (chwid r)) (csize r) (size_r r) = None"
      using thread_range_exact[OF _ c(1) _ b, of "size_r r"] p c(1)
      by (simp add: starved_def)
    moreover have "list_all (\<lambda>w. \<not> in_flight w) ((threads r)[i := Exited])"
      using p by (auto simp: starved_def intro: list_all_update)
    ultimately show ?thesis
      using i Claiming p exited_update[OF i t, of Exited]
      by (simp add: claim_def starved_def exited_def)
  qed (use p i in \<open>simp_all add: claim_def\<close>)
qed

lemma starved_not_in_flight:
  "starved r \<Longrightarrow> i < length (threads r) \<Longrightarrow> \<not> in_flight (threads r ! i)"
  by (simp add: starved_def list_all_length)

lemma starved_fetch: "starved r \<Longrightarrow> starved (fetch i r)"
  using starved_not_in_flight[of r i]
  by (cases "threads r ! i") (auto simp: fetch_def)

lemma starved_fetch_fail: "starved r \<Longrightarrow> starved (fetch_fail i e k r)"
  using starved_not_in_flight[of r i]
  by (cases "threads r ! i") (auto simp: fetch_fail_def)

lemma starved_store: "starved r \<Longrightarrow> starved (store i r)"
  using starved_not_in_flight[of r i]
  by (cases "threads r ! i") (auto simp: store_def)

lemma starved_init_Do: "starved r \<Longrightarrow> starved (init_Do r)"
  by (simp add: init_Do_def initFunc_def Let_def starved_def exited_def
      init_loop_threads init_loop_others list_all_iff)

lemma starved_curChunk:
  "starved r \<Longrightarrow>
   curChunk pick_done (init_Do r) = (if ctx_done r then Some (None, Some Canceled) else None)"
  by (simp add: curChunk_def init_Do_fields starved_def)

lemma starved_Read:
  assumes "starved r"
  shows "Read n pick_done r
           = (init_Do r, if ctx_done r then Returned [] (Some Canceled) else Blocked)"
  using starved_curChunk[OF assms, of pick_done]
  by (cases "ctx_done r") (simp_all add: Read_Blocked Read_error)

lemma starved_step:
  assumes "starved r" and "configured c s r" and "int (concurrency c) * chunk_size s < 2 ^ 63"
  shows "starved (step ev r)"
proof (cases ev)
  case (Claim i)
  show ?thesis
  proof (cases "init_done r")
    case True
    with assms(2) have "length (threads r) = concurrency c" "csize r = chunk_size s"
      by (simp_all add: configured_def)
    with assms(1,3) Claim show ?thesis
      by (simp add: starved_claim chunk_size_def)
  next
    case False
    with assms(2) have "threads r = []" by (simp add: configured_def)
    with assms(1) Claim show ?thesis by (simp add: claim_def)
  qed
qed (use assms(1) in \<open>simp_all add: starved_take_buf starved_quit starved_fetch starved_fetch_fail
      starved_store starved_Read starved_init_Do Close_def\<close>, simp add: starved_def exited_def)

lemma starved_run:
  assumes "starved r" and "configured c s r" and "int (concurrency c) * chunk_size s < 2 ^ 63"
  shows "starved (run evs r)"
  using assms(1,2)
proof (induction evs arbitrary: r)
  case Nil
  then show ?case by simp
next
  case (Cons ev evs)
  from Cons.prems assms(3) have "starved (step ev r)" "configured c s (step ev r)"
    by (simp_all add: starved_step configured_step)
  then show ?case using Cons.IH by simp
qed

lemma starved_new: "starved (new_Reader [] c s)"
  by (simp add: starved_def new_Reader_def exited_def)

section \<open>The worker's range request\<close>





section \<open>Lazy start\<close>

text \<open>
  C9. The first \<open>Read\<close> of a new reader runs \<open>initFunc\<close>: it starts exactly \<open>cr\<close> workers
  and queues exactly \<open>cr\<close> new buffers, \<open>cr\<close> being \<open>ConcurrentDownloads\<close>, or 1 when that
  is below 1, and it sets the chunk size to \<open>ChunkSize\<close>, or to 10,000,000 when that is
  below 1. Whatever happens afterwards (steps of the workers, further calls of \<open>Read\<close>,
  \<open>Close\<close>), the reader stays initialised, \<open>init.Do\<close> changes nothing any more, and the
  workers and the buffers stay exactly \<open>cr\<close>: \<open>initFunc\<close> never runs a second time.
\<close>

theorem Read_initialises_once:
  "let r1 = fst (Read n pick_done (new_Reader obj c s)); r = run evs r1 in
     threads r1 = replicate (concurrency c) Taking
     \<and> chbuf r1 = [0..<concurrency c]
     \<and> nbufs r1 = concurrency c
     \<and> csize r1 = chunk_size s
     \<and> init_done r
     \<and> length (threads r) = concurrency c
     \<and> nbufs r = concurrency c
     \<and> csize r = chunk_size s
     \<and> init_Do r = r"
proof -
  let ?r0 = "new_Reader obj c s"
  let ?r1 = "fst (Read n pick_done ?r0)"
  have f: "\<not> init_done ?r0" "threads ?r0 = []" "nbufs ?r0 = 0"
    "ConcurrentDownloads ?r0 = c" "ChunkSize ?r0 = s"
    by (simp_all add: new_Reader_def)
  have r1: "?r1 = init_Do ?r0" by (rule first_Read_new)
  have d: "init_done (run evs ?r1)"
    by (rule init_done_run) (simp add: r1 init_Do_fields)
  have "configured c s (run evs ?r1)"
    by (intro configured_run configured_Read configured_new)
  with d have c: "length (threads (run evs ?r1)) = concurrency c"
    "nbufs (run evs ?r1) = concurrency c" "csize (run evs ?r1) = chunk_size s"
    by (simp_all add: configured_def)
  from init_Do_fresh[OF f(1,2,3)] f(4,5) r1 d c show ?thesis
    by (simp add: Let_def init_Do_idem)
qed

text \<open>
  Unset settings: one worker, one buffer and chunks of 10,000,000 bytes, also after
  the worker has run and \<open>Read\<close> was called twice more.
\<close>

theorem Read_initialises_once_witness:
  "threads (fst (Read 2 False (new_Reader small_object 0 0))) = [Taking]
   \<and> chbuf (fst (Read 2 False (new_Reader small_object 0 0))) = [0]
   \<and> csize (fst (Read 2 False (new_Reader small_object 0 0))) = 10000000
   \<and> length (threads (run (tl consume_chunk0) (fst (Read 2 False (new_Reader small_object 0 0))))) = 1
   \<and> nbufs (run (tl consume_chunk0) (fst (Read 2 False (new_Reader small_object 0 0)))) = 1"
  using Read_initialises_once[of 2 False small_object 0 0 "tl consume_chunk0"]
  by (simp add: Let_def concurrency_def chunk_size_def)

section \<open>The bound on outstanding chunks\<close>





section \<open>The latch\<close>

text \<open>
  C7, as amended. Once an error is recorded, no \<open>setErr\<close> and no step of the session
  overwrites it, and every later call of \<open>Read\<close> returns no bytes and that first error,
  as long as the context is not cancelled; on a cancelled context \<open>Read\<close> returns that
  error or the context's cancellation error, as its \<open>select\<close> chooses.
\<close>

theorem latched_error_is_sticky:
  assumes "err r = Some e"
  shows "err (setErr e' r) = Some e
     \<and> err (run evs r) = Some e
     \<and> snd (Read n pick_done (run evs r))
         = Returned [] (Some (if ctx_done (run evs r) \<and> pick_done then Canceled else e))"
  using assms Read_latched[OF err_run[OF assms]] by (simp add: setErr_def err_run)

lemma fail_chunk0_state:
  "err (run fail_chunk0 (new_Reader small_object 1 2)) = Some download_unavailable"
  "ctx_done (run [CallRead 2 True, Take 0] (run fail_chunk0 (new_Reader small_object 1 2))) = False"
  "ctx_done (run [CallClose] (run fail_chunk0 (new_Reader small_object 1 2))) = True"
  by code_simp+

text \<open>
  The request for chunk 0 fails with status 503: later calls of \<open>Read\<close> return that
  error, and a later \<open>setErr\<close> with another error leaves it.
\<close>

theorem latched_error_is_sticky_witness:
  "err (run fail_chunk0 (new_Reader small_object 1 2)) = Some download_unavailable
   \<and> err (setErr EOF (run fail_chunk0 (new_Reader small_object 1 2))) = Some download_unavailable
   \<and> snd (Read 2 True (run [CallRead 2 True, Take 0] (run fail_chunk0 (new_Reader small_object 1 2))))
       = Returned [] (Some download_unavailable)"
  using latched_error_is_sticky
    [of "run fail_chunk0 (new_Reader small_object 1 2)" download_unavailable EOF
        "[CallRead 2 True, Take 0]" 2 True]
  by (simp del: run.simps add: fail_chunk0_state)

text \<open>
  C7 as stated has every later \<open>Read\<close> return the first error. After the failure of
  chunk 0 and a \<open>Close\<close>, a \<open>Read\<close> whose \<open>select\<close> takes \<open>ctx.Done()\<close> returns the
  cancellation error, while the latch still holds the error of status 503.
\<close>

theorem Read_after_Close_counterexample:
  "err (run [CallClose] (run fail_chunk0 (new_Reader small_object 1 2))) = Some download_unavailable
   \<and> snd (Read 2 True (run [CallClose] (run fail_chunk0 (new_Reader small_object 1 2))))
       = Returned [] (Some Canceled)"
  by code_simp

section \<open>Reading an empty object\<close>

text \<open>
  C1 at an object of size 0. Every worker that claims a chunk finds its offset at the
  size and returns, so no chunk is ever stored and no error is latched: in every
  schedule, the bytes consumed so far (none) equal the size, and still a call of \<open>Read\<close>
  waits in \<open>curChunk\<close>, or returns the cancellation error once the context is
  cancelled. It never returns \<open>io.EOF\<close>.
\<close>

theorem empty_object_Read_never_ends:
  assumes "int (concurrency c) * chunk_size s < 2 ^ 63"
  shows "int (read_r (run evs (new_Reader [] c s))) = size_r (run evs (new_Reader [] c s))
     \<and> snd (Read n pick_done (run evs (new_Reader [] c s)))
         = (if ctx_done (run evs (new_Reader [] c s)) then Returned [] (Some Canceled) else Blocked)"
proof -
  have "starved (run evs (new_Reader [] c s))"
    using starved_new configured_new assms by (rule starved_run)
  then show ?thesis
    by (simp add: starved_Read) (simp add: starved_def)
qed

lemma empty_session_state:
  "ctx_done (run empty_session (new_Reader [] 1 0)) = False"
  "threads (run empty_session (new_Reader [] 1 0)) = [Exited]"
  by code_simp+

text \<open>
  One worker, default chunk size: the worker has returned, and \<open>Read\<close> waits.
\<close>

theorem empty_object_Read_never_ends_witness:
  "threads (run empty_session (new_Reader [] 1 0)) = [Exited]
   \<and> snd (Read 4096 False (run empty_session (new_Reader [] 1 0))) = Blocked"
  using empty_object_Read_never_ends[of 1 0 empty_session 4096 False]
  by (simp add: empty_session_state concurrency_def chunk_size_def)

end
